theory Spec2Isabelle
  imports Main "HOL-Library.Sublist"
begin

section \<open>The build manifest \<^verbatim>\<open>bricks/_common/manifest.py\<close>\<close>

text \<open>
  The whole program is one Python module body, evaluated by the firmware build tool:
  \<^verbatim>\<open>
   6  include("./modules/uasyncio")
   8  modules = list(pathlib.Path("./modules").glob("*.py"))
  10  if any(modules):
  11      for m in modules:
  12          print(f"INCLUDING {m} as a module.")
  13          path, file = m.parts
  14          print(f"Including {m.stem} as a module.")
  15          freeze_as_mpy(path, file)
  \<close>
  It talks to three things outside itself: the build tool (the directives
  \<^verbatim>\<open>include\<close> and \<^verbatim>\<open>freeze_as_mpy\<close>), standard output, and the file
  system (through \<^verbatim>\<open>pathlib\<close>). The embedding keeps the file system and an ordered
  log of these interactions as an explicit state, and the one exception the module
  body can raise itself (the tuple unpacking of line 13) as a value.
\<close>

subsection \<open>Paths: the part of \<^verbatim>\<open>pathlib.PurePosixPath\<close> the script uses\<close>

text \<open>
  A relative path object is its tuple of components. \<^verbatim>\<open>Path(s)\<close> splits \<open>s\<close> at the
  separator and drops empty and \<^verbatim>\<open>.\<close> components (\<^verbatim>\<open>parse_parts\<close>); the script's only
  path literal is relative, so no root or drive is modelled.
\<close>

datatype path = PurePath (parts: "string list")

fun split_sep :: "char \<Rightarrow> string \<Rightarrow> string list" where
  "split_sep sep [] = [[]]"
| "split_sep sep (c # cs) =
     (if c = sep then [] # split_sep sep cs
      else (case split_sep sep cs of [] \<Rightarrow> [[c]] | x # xs \<Rightarrow> (c # x) # xs))"

definition Path :: "string \<Rightarrow> path" where
  "Path s = PurePath (filter (\<lambda>x. x \<noteq> [] \<and> x \<noteq> ''.'') (split_sep CHR ''/'' s))"

fun join_sep :: "string \<Rightarrow> string list \<Rightarrow> string" where
  "join_sep sep [] = []"
| "join_sep sep [x] = x"
| "join_sep sep (x # y # ys) = x @ sep @ join_sep sep (y # ys)"

text \<open>\<^verbatim>\<open>str(p)\<close>: the components joined by the separator, or \<^verbatim>\<open>.\<close> for the empty path.\<close>

definition str :: "path \<Rightarrow> string" where
  "str p = (if parts p = [] then ''.'' else join_sep ''/'' (parts p))"

text \<open>\<^verbatim>\<open>p.name\<close>: the final component, empty for the empty path.\<close>

definition name :: "path \<Rightarrow> string" where
  "name p = (if parts p = [] then [] else last (parts p))"

text \<open>\<^verbatim>\<open>p.parent\<close>: the path without its final component; the empty path is its own parent.\<close>

definition parent :: "path \<Rightarrow> path" where
  "parent p = PurePath (butlast (parts p))"

text \<open>\<^verbatim>\<open>s.rfind(c)\<close>: the last index of \<open>c\<close>; \<open>None\<close> stands for Python's \<open>-1\<close>.\<close>

fun rfind :: "char \<Rightarrow> string \<Rightarrow> nat option" where
  "rfind c [] = None"
| "rfind c (x # xs) =
     (case rfind c xs of
        Some i \<Rightarrow> Some (Suc i)
      | None \<Rightarrow> if x = c then Some 0 else None)"

text \<open>
  \<^verbatim>\<open>p.stem\<close>: \<^verbatim>\<open>i = name.rfind('.')\<close>, then \<^verbatim>\<open>name[:i]\<close> if \<^verbatim>\<open>0 < i < len(name) - 1\<close>
  and the whole name otherwise.
\<close>

definition stem :: "path \<Rightarrow> string" where
  "stem p =
     (let n = name p in
      case rfind CHR ''.'' n of
        None \<Rightarrow> n
      | Some i \<Rightarrow> if 0 < i \<and> Suc i < length n then take i n else n)"

text \<open>
  A path object defines neither \<^verbatim>\<open>__bool__\<close> nor \<^verbatim>\<open>__len__\<close>, so its truth value is
  Python's default for objects.
\<close>

definition truth :: "path \<Rightarrow> bool" where
  "truth p = True"

text \<open>The builtin \<^verbatim>\<open>any\<close> over the truth values of a list's elements.\<close>

fun any :: "bool list \<Rightarrow> bool" where
  "any [] = False"
| "any (b # bs) = (b \<or> any bs)"

subsection \<open>Name patterns: \<^verbatim>\<open>fnmatch\<close>\<close>

text \<open>
  \<^verbatim>\<open>glob\<close> compiles each pattern component with \<^verbatim>\<open>fnmatch.translate\<close> and matches whole
  entry names against it, case-sensitively on POSIX: \<^verbatim>\<open>*\<close> stands for any run of
  characters, \<^verbatim>\<open>?\<close> for one, and every other character of the script's pattern for
  itself (bracket expressions do not occur in it and are not modelled).
\<close>

fun fnmatchcase :: "string \<Rightarrow> string \<Rightarrow> bool" where
  "fnmatchcase [] [] = True"
| "fnmatchcase (c # cs) [] = False"
| "fnmatchcase [] (p # ps) = (p = CHR ''*'' \<and> fnmatchcase [] ps)"
| "fnmatchcase (c # cs) (p # ps) =
     (if p = CHR ''*'' then fnmatchcase (c # cs) ps \<or> fnmatchcase cs (p # ps)
      else if p = CHR ''?'' then fnmatchcase cs ps
      else p = c \<and> fnmatchcase cs ps)"

subsection \<open>The file system and \<^verbatim>\<open>Path.glob\<close>\<close>

text \<open>
  A directory is the list of its entries in the order the operating system enumerates
  them; a file carries its contents. Relative paths are resolved from the working
  directory of the build.
\<close>

datatype node = File string | Dir "(string \<times> node) list"

fun resolve :: "node \<Rightarrow> string list \<Rightarrow> node option" where
  "resolve n [] = Some n"
| "resolve (File c) (x # xs) = None"
| "resolve (Dir es) (x # xs) =
     (case map_of es x of None \<Rightarrow> None | Some n \<Rightarrow> resolve n xs)"

definition is_dir :: "node \<Rightarrow> path \<Rightarrow> bool" where
  "is_dir root p = (case resolve root (parts p) of Some (Dir es) \<Rightarrow> True | _ \<Rightarrow> False)"

text \<open>\<^verbatim>\<open>os.scandir\<close>: the names of a directory's entries, files and directories alike.\<close>

definition scandir :: "node \<Rightarrow> path \<Rightarrow> string list" where
  "scandir root p = (case resolve root (parts p) of Some (Dir es) \<Rightarrow> map fst es | _ \<Rightarrow> [])"

text \<open>
  \<^verbatim>\<open>p.glob(pat)\<close> for a pattern of one component without \<^verbatim>\<open>**\<close>, as the script's is.
  \<^verbatim>\<open>_Selector.select_from\<close> starts with
  \<^verbatim>\<open>if not is_dir(parent_path): return iter([])\<close>, so a path that is missing or is not a
  directory yields no candidate and raises nothing. \<^verbatim>\<open>_WildcardSelector._select_from\<close>
  then lists the directory and yields \<^verbatim>\<open>parent_path._make_child_relpath(name)\<close> for every
  entry whose name matches; the kind of the entry is looked at only for a pattern
  component that is not the last one.
\<close>

definition glob :: "node \<Rightarrow> path \<Rightarrow> string \<Rightarrow> path list" where
  "glob root p pat =
     (if \<not> is_dir root p then []
      else map (\<lambda>n. PurePath (parts p @ [n]))
             (filter (\<lambda>n. fnmatchcase n pat) (scandir root p)))"

subsection \<open>Effects and errors\<close>

text \<open>
  The log records, in program order, every interaction of the module body with its
  surroundings: the two build-tool directives, each line written by \<^verbatim>\<open>print\<close>, and the
  directory scan. What the build tool does on a directive is the build tool's; the
  directives are taken to return.
\<close>

datatype event =
    Include string
  | Glob path string
  | Print string
  | Freeze_as_mpy string string

record world =
  cwd :: node
  log :: "event list"

definition emit :: "event \<Rightarrow> world \<Rightarrow> world" where
  "emit e w = w\<lparr>log := log w @ [e]\<rparr>"

datatype error = ValueError string

text \<open>
  \<^verbatim>\<open>path, file = t\<close> for a tuple \<open>t\<close>: exactly two elements, or \<^verbatim>\<open>ValueError\<close>.
\<close>

fun unpack2 :: "string list \<Rightarrow> error + string \<times> string" where
  "unpack2 [a, b] = Inr (a, b)"
| "unpack2 (a # b # c # xs) = Inl (ValueError ''too many values to unpack (expected 2)'')"
| "unpack2 [a] = Inl (ValueError ''not enough values to unpack (expected 2, got 1)'')"
| "unpack2 [] = Inl (ValueError ''not enough values to unpack (expected 2, got 0)'')"

subsection \<open>The module body\<close>

text \<open>Lines 12 to 15, one pass of the loop for the candidate \<open>m\<close>.\<close>

definition body :: "path \<Rightarrow> world \<Rightarrow> error option \<times> world" where
  "body m w =
     (let w1 = emit (Print (''INCLUDING '' @ str m @ '' as a module.'')) w in
      case unpack2 (parts m) of
        Inl e \<Rightarrow> (Some e, w1)
      | Inr (path, file) \<Rightarrow>
          (let w2 = emit (Print (''Including '' @ stem m @ '' as a module.'')) w1;
               w3 = emit (Freeze_as_mpy path file) w2
           in (None, w3)))"

text \<open>Line 11: the loop; an exception in one pass ends it.\<close>

fun for_modules :: "path list \<Rightarrow> world \<Rightarrow> error option \<times> world" where
  "for_modules [] w = (None, w)"
| "for_modules (m # ms) w =
     (case body m w of
        (Some e, w') \<Rightarrow> (Some e, w')
      | (None, w') \<Rightarrow> for_modules ms w')"

text \<open>Lines 10 to 15: the loop under its guard.\<close>

definition frozen_modules :: "path list \<Rightarrow> world \<Rightarrow> error option \<times> world" where
  "frozen_modules modules w =
     (if any (map truth modules) then for_modules modules w else (None, w))"

text \<open>Lines 6 to 15.\<close>

definition manifest :: "world \<Rightarrow> error option \<times> world" where
  "manifest w =
     (let w1 = emit (Include ''./modules/uasyncio'') w;
          modules = glob (cwd w1) (Path ''./modules'') ''*.py'';
          w2 = emit (Glob (Path ''./modules'') ''*.py'') w1
      in frozen_modules modules w2)"

text \<open>
  One evaluation of the manifest with working directory \<open>root\<close>: whether it raised,
  and the interactions it had, from an empty log.
\<close>

definition run :: "node \<Rightarrow> error option \<times> event list" where
  "run root = (case manifest \<lparr>cwd = root, log = []\<rparr> of (r, w) \<Rightarrow> (r, log w))"

text \<open>The arguments of the registration calls, the paths of the include calls and the
  printed lines of a log, each in order.\<close>

fun freeze_calls :: "event list \<Rightarrow> (string \<times> string) list" where
  "freeze_calls [] = []"
| "freeze_calls (Freeze_as_mpy d f # es) = (d, f) # freeze_calls es"
| "freeze_calls (e # es) = freeze_calls es"

fun include_calls :: "event list \<Rightarrow> string list" where
  "include_calls [] = []"
| "include_calls (Include p # es) = p # include_calls es"
| "include_calls (e # es) = include_calls es"

fun printed :: "event list \<Rightarrow> string list" where
  "printed [] = []"
| "printed (Print l # es) = l # printed es"
| "printed (e # es) = printed es"

fun scans :: "event list \<Rightarrow> (path \<times> string) list" where
  "scans [] = []"
| "scans (Glob p pat # es) = (p, pat) # scans es"
| "scans (e # es) = scans es"

text \<open>The guard of line 10 removed, for comparison with the module body as written.\<close>

definition manifest_unguarded :: "world \<Rightarrow> error option \<times> world" where
  "manifest_unguarded w =
     (let w1 = emit (Include ''./modules/uasyncio'') w;
          modules = glob (cwd w1) (Path ''./modules'') ''*.py'';
          w2 = emit (Glob (Path ''./modules'') ''*.py'') w1
      in for_modules modules w2)"

text \<open>The interactions of one pass of the loop that reaches line 15, in order.\<close>

definition registration :: "path \<Rightarrow> event list" where
  "registration m =
     [Print (''INCLUDING '' @ str m @ '' as a module.''),
      Print (''Including '' @ stem m @ '' as a module.''),
      Freeze_as_mpy (name (parent m)) (name m)]"

section \<open>Auxiliary facts\<close>

lemma Path_modules: "Path ''./modules'' = PurePath [''modules'']"
  by (simp add: Path_def)

lemma fnmatch_literal:
  "CHR ''*'' \<notin> set lit \<Longrightarrow> CHR ''?'' \<notin> set lit \<Longrightarrow> fnmatchcase n lit \<longleftrightarrow> n = lit"
  by (induction n lit rule: fnmatchcase.induct) auto

lemma fnmatch_star_literal:
  "CHR ''*'' \<notin> set lit \<Longrightarrow> CHR ''?'' \<notin> set lit \<Longrightarrow>
   fnmatchcase n (CHR ''*'' # lit) \<longleftrightarrow> suffix lit n"
proof (induction n)
  case Nil
  then show ?case by (cases lit) (auto simp: fnmatch_literal)
next
  case (Cons c cs)
  then show ?case by (auto simp: fnmatch_literal suffix_Cons)
qed

lemma fnmatch_py: "fnmatchcase n ''*.py'' \<longleftrightarrow> suffix ''.py'' n"
  using fnmatch_star_literal [of "''.py''" n] by simp

lemma glob_modules:
  assumes "resolve root [''modules''] = Some (Dir es)"
  shows "glob root (Path ''./modules'') ''*.py'' =
         map (\<lambda>n. PurePath [''modules'', n]) (filter (suffix ''.py'') (map fst es))"
  using assms by (simp add: glob_def is_dir_def scandir_def Path_modules fnmatch_py)

lemma glob_two_parts:
  "m \<in> set (glob root (Path ''./modules'') pat) \<Longrightarrow> \<exists>f. parts m = [''modules'', f]"
  by (auto simp: glob_def Path_modules split: if_splits)

lemma body_two:
  assumes "parts m = [d, f]"
  shows "body m w = (None, w\<lparr>log := log w @ registration m\<rparr>)"
  using assms by (simp add: body_def emit_def registration_def name_def parent_def)

lemma body_not_two:
  assumes "length (parts m) \<noteq> 2"
  shows "\<exists>msg. body m w =
           (Some (ValueError msg), emit (Print (''INCLUDING '' @ str m @ '' as a module.'')) w)"
proof (cases "parts m" rule: unpack2.cases)
  case (1 a b) with assms show ?thesis by simp
qed (simp_all add: body_def)

lemma for_modules_two:
  assumes "\<forall>m \<in> set ms. length (parts m) = 2"
  shows "for_modules ms w = (None, w\<lparr>log := log w @ concat (map registration ms)\<rparr>)"
  using assms
proof (induction ms arbitrary: w)
  case Nil
  then show ?case by simp
next
  case (Cons m ms)
  from Cons.prems obtain d f where df: "parts m = [d, f]"
    by (cases "parts m" rule: unpack2.cases) auto
  from Cons show ?case by (simp add: body_two [OF df])
qed

lemma any_truth: "any (map truth ms) \<longleftrightarrow> ms \<noteq> []"
  by (cases ms) (simp_all add: truth_def)

lemma frozen_modules_loop: "frozen_modules ms w = for_modules ms w"
  unfolding frozen_modules_def any_truth by (cases ms) simp_all

lemma run_events:
  "run root = (None, [Include ''./modules/uasyncio'', Glob (Path ''./modules'') ''*.py'']
                 @ concat (map registration (glob root (Path ''./modules'') ''*.py'')))"
proof -
  have "\<forall>m \<in> set (glob root (Path ''./modules'') ''*.py''). length (parts m) = 2"
    using glob_two_parts by fastforce
  then show ?thesis
    by (simp add: run_def manifest_def frozen_modules_loop for_modules_two emit_def)
qed

lemma freeze_calls_append: "freeze_calls (xs @ ys) = freeze_calls xs @ freeze_calls ys"
  by (induction xs rule: freeze_calls.induct) simp_all

lemma include_calls_append: "include_calls (xs @ ys) = include_calls xs @ include_calls ys"
  by (induction xs rule: include_calls.induct) simp_all

lemma printed_append: "printed (xs @ ys) = printed xs @ printed ys"
  by (induction xs rule: printed.induct) simp_all

lemma scans_append: "scans (xs @ ys) = scans xs @ scans ys"
  by (induction xs rule: scans.induct) simp_all

lemma freeze_calls_registrations:
  "freeze_calls (concat (map registration ms)) = map (\<lambda>m. (name (parent m), name m)) ms"
  by (induction ms) (simp_all add: registration_def)

lemma include_calls_registrations: "include_calls (concat (map registration ms)) = []"
  by (induction ms) (simp_all add: registration_def)

lemma scans_registrations: "scans (concat (map registration ms)) = []"
  by (induction ms) (simp_all add: registration_def)

lemma printed_registrations:
  "printed (concat (map registration ms)) =
   concat (map (\<lambda>m. [''INCLUDING '' @ str m @ '' as a module.'',
                     ''Including '' @ stem m @ '' as a module.'']) ms)"
  by (induction ms) (simp_all add: registration_def)

lemma rfind_last: "c \<notin> set ys \<Longrightarrow> rfind c (xs @ c # ys) = Some (length xs)"
proof (induction xs)
  case Nil
  have "rfind c ys = None" using Nil by (induction ys) auto
  then show ?case by simp
next
  case (Cons x xs)
  then show ?case by simp
qed

lemma stem_py: "s \<noteq> [] \<Longrightarrow> name m = s @ ''.py'' \<Longrightarrow> stem m = s"
  using rfind_last [of "CHR ''.''" "''py''" s] by (simp add: stem_def)

lemma body_cwd: "cwd (snd (body m w)) = cwd w"
  by (simp add: body_def emit_def Let_def split: sum.splits prod.splits)

lemma for_modules_cwd: "cwd (snd (for_modules ms w)) = cwd w"
proof (induction ms arbitrary: w)
  case Nil
  show ?case by simp
next
  case (Cons m ms)
  show ?case
  proof (cases "body m w")
    case (Pair r w')
    with body_cwd [of m w] have "cwd w' = cwd w" by simp
    with Pair Cons.IH [of w'] show ?thesis by (cases r) simp_all
  qed
qed

lemma glob_listing:
  "is_dir r1 p = is_dir r2 p \<Longrightarrow> scandir r1 p = scandir r2 p \<Longrightarrow> glob r1 p pat = glob r2 p pat"
  by (simp add: glob_def)

lemma for_modules_abort:
  assumes "\<forall>p \<in> set pre. length (parts p) = 2" and "length (parts m) \<noteq> 2"
  shows "\<exists>msg. for_modules (pre @ m # post) w =
           (Some (ValueError msg),
            w\<lparr>log := log w @ concat (map registration pre)
                       @ [Print (''INCLUDING '' @ str m @ '' as a module.'')]\<rparr>)"
  using assms(1)
proof (induction pre arbitrary: w)
  case Nil
  from body_not_two [OF assms(2), of w] show ?case by (auto simp: emit_def)
next
  case (Cons p pre)
  from Cons.prems obtain d f where df: "parts p = [d, f]"
    by (cases "parts p" rule: unpack2.cases) auto
  from Cons.prems have "\<forall>p \<in> set pre. length (parts p) = 2" by simp
  from Cons.IH [OF this, of "w\<lparr>log := log w @ registration p\<rparr>"]
  show ?case by (simp add: body_two [OF df])
qed

section \<open>The claims\<close>

text \<open>
  Claim C1. When \<^verbatim>\<open>./modules\<close> is a directory with \<open>N\<close> entries whose names match
  \<^verbatim>\<open>*.py\<close> (that is, end in \<^verbatim>\<open>.py\<close>), an evaluation of the manifest ends without an
  exception, makes exactly \<open>N\<close> \<^verbatim>\<open>freeze_as_mpy\<close> calls and exactly one \<^verbatim>\<open>include\<close>
  call, for the fixed path \<^verbatim>\<open>./modules/uasyncio\<close>.
\<close>
theorem manifest_call_count:
  assumes "resolve root [''modules''] = Some (Dir es)"
    and "length (filter (suffix ''.py'') (map fst es)) = N"
  shows "fst (run root) = None
       \<and> length (freeze_calls (snd (run root))) = N
       \<and> include_calls (snd (run root)) = [''./modules/uasyncio'']"
proof -
  let ?ms = "glob root (Path ''./modules'') ''*.py''"
  have len: "length ?ms = N"
    using assms(2) by (simp add: glob_modules [OF assms(1)])
  have "fst (run root) = None"
    by (simp add: run_events)
  moreover have "length (freeze_calls (snd (run root))) = length ?ms"
    by (simp add: run_events freeze_calls_append freeze_calls_registrations)
  moreover have "include_calls (snd (run root)) = [''./modules/uasyncio'']"
    by (simp add: run_events include_calls_append include_calls_registrations)
  ultimately show ?thesis using len by simp
qed

theorem manifest_call_count_witness:
  "resolve (Dir [(''modules'', Dir [(''a.py'', File ''x''), (''notes.txt'', File []), (''b.py'', File [])])])
     [''modules'']
   = Some (Dir [(''a.py'', File ''x''), (''notes.txt'', File []), (''b.py'', File [])])
   \<and> length (filter (suffix ''.py'') (map fst [(''a.py'', File ''x''), (''notes.txt'', File []), (''b.py'', File [])])) = 2
   \<and> length (freeze_calls (snd (run (Dir [(''modules'', Dir [(''a.py'', File ''x''), (''notes.txt'', File []), (''b.py'', File [])])])))) = 2
   \<and> include_calls (snd (run (Dir [(''modules'', Dir [(''a.py'', File ''x''), (''notes.txt'', File []), (''b.py'', File [])])]))) = [''./modules/uasyncio'']"
proof -
  let ?es = "[(''a.py'', File ''x''), (''notes.txt'', File []), (''b.py'', File [])]"
  have h1: "resolve (Dir [(''modules'', Dir ?es)]) [''modules''] = Some (Dir ?es)" by simp
  have h2: "length (filter (suffix ''.py'') (map fst ?es)) = 2" by (simp add: suffix_Cons)
  from manifest_call_count [OF h1 h2] h1 h2 show ?thesis by simp
qed

text \<open>
  Claim C2. Every evaluation starts with the include call, made before the directory
  is scanned, and makes no other include call; when the scan yields no candidate, the
  include call is the only call: nothing is registered and nothing is printed.
\<close>
theorem include_before_scan:
  "(\<exists>rest. snd (run root) = Include ''./modules/uasyncio'' # Glob (Path ''./modules'') ''*.py'' # rest
            \<and> include_calls rest = [])
   \<and> (glob root (Path ''./modules'') ''*.py'' = [] \<longrightarrow>
        run root = (None, [Include ''./modules/uasyncio'', Glob (Path ''./modules'') ''*.py'']))"
  by (simp add: run_events include_calls_registrations)

theorem include_before_scan_witness:
  "glob (Dir [(''modules'', Dir [(''README.md'', File ''text'')])]) (Path ''./modules'') ''*.py'' = []
   \<and> run (Dir [(''modules'', Dir [(''README.md'', File ''text'')])])
       = (None, [Include ''./modules/uasyncio'', Glob (PurePath [''modules'']) ''*.py''])"
proof -
  have h: "glob (Dir [(''modules'', Dir [(''README.md'', File ''text'')])]) (Path ''./modules'') ''*.py'' = []"
    by (simp add: glob_def Path_def is_dir_def scandir_def)
  from include_before_scan [of "Dir [(''modules'', Dir [(''README.md'', File ''text'')])]"] h
  show ?thesis by (simp add: Path_def)
qed

text \<open>
  Claim C3. For a candidate with exactly two path components, one pass of the loop
  ends without an exception and calls \<^verbatim>\<open>freeze_as_mpy\<close> with the name of the
  candidate's parent directory first and the candidate's own name, extension included,
  second, after the two diagnostic lines.
\<close>
theorem body_registers_parent_and_name:
  assumes "length (parts m) = 2"
  shows "body m w =
     (None, w\<lparr>log := log w @
        [Print (''INCLUDING '' @ str m @ '' as a module.''),
         Print (''Including '' @ stem m @ '' as a module.''),
         Freeze_as_mpy (name (parent m)) (name m)]\<rparr>)"
proof -
  from assms obtain d f where "parts m = [d, f]"
    by (cases "parts m" rule: unpack2.cases) auto
  from body_two [OF this] show ?thesis by (simp add: registration_def)
qed

theorem body_registers_parent_and_name_witness:
  "length (parts (PurePath [''modules'', ''a.py''])) = 2
   \<and> body (PurePath [''modules'', ''a.py'']) \<lparr>cwd = Dir [], log = []\<rparr> =
     (None, \<lparr>cwd = Dir [], log =
        [Print ''INCLUDING modules/a.py as a module.'',
         Print ''Including a as a module.'',
         Freeze_as_mpy ''modules'' ''a.py'']\<rparr>)"
proof -
  have h: "length (parts (PurePath [''modules'', ''a.py''])) = 2" by simp
  from body_registers_parent_and_name [OF h, of "\<lparr>cwd = Dir [], log = []\<rparr>"] h
  show ?thesis by (simp add: str_def stem_def name_def parent_def)
qed

text \<open>
  Claim C4. When the candidates before \<open>m\<close> have two components each and \<open>m\<close> has
  not, the guarded loop ends in a \<^verbatim>\<open>ValueError\<close> raised by the unpacking of line 13: the
  earlier candidates are registered, the first diagnostic line of \<open>m\<close> is written, and
  no \<^verbatim>\<open>freeze_as_mpy\<close> call is made for \<open>m\<close> or for any candidate after it.
\<close>
theorem unpack_failure_aborts:
  assumes "\<forall>p \<in> set pre. length (parts p) = 2" and "length (parts m) \<noteq> 2"
  shows "\<exists>msg. frozen_modules (pre @ m # post) w =
           (Some (ValueError msg),
            w\<lparr>log := log w
               @ concat (map (\<lambda>p. [Print (''INCLUDING '' @ str p @ '' as a module.''),
                                    Print (''Including '' @ stem p @ '' as a module.''),
                                    Freeze_as_mpy (name (parent p)) (name p)]) pre)
               @ [Print (''INCLUDING '' @ str m @ '' as a module.'')]\<rparr>)"
proof -
  have "registration = (\<lambda>p. [Print (''INCLUDING '' @ str p @ '' as a module.''),
                                    Print (''Including '' @ stem p @ '' as a module.''),
                                    Freeze_as_mpy (name (parent p)) (name p)])"
    by (rule ext) (simp add: registration_def)
  with for_modules_abort [OF assms, of post w] show ?thesis
    by (simp add: frozen_modules_loop)
qed

theorem unpack_failure_aborts_witness:
  "length (parts (PurePath [''modules'', ''a.py''])) = 2
   \<and> length (parts (PurePath [''modules'', ''sub'', ''c.py''])) \<noteq> 2
   \<and> frozen_modules [PurePath [''modules'', ''a.py''], PurePath [''modules'', ''sub'', ''c.py''],
                      PurePath [''modules'', ''b.py'']] \<lparr>cwd = Dir [], log = []\<rparr> =
       (Some (ValueError ''too many values to unpack (expected 2)''),
        \<lparr>cwd = Dir [], log =
          [Print ''INCLUDING modules/a.py as a module.'',
           Print ''Including a as a module.'',
           Freeze_as_mpy ''modules'' ''a.py'',
           Print ''INCLUDING modules/sub/c.py as a module.'']\<rparr>)"
proof -
  have h1: "\<forall>p \<in> set [PurePath [''modules'', ''a.py'']]. length (parts p) = 2" by simp
  have h2: "length (parts (PurePath [''modules'', ''sub'', ''c.py''])) \<noteq> 2" by simp
  from unpack_failure_aborts [OF h1 h2, of "[PurePath [''modules'', ''b.py'']]" "\<lparr>cwd = Dir [], log = []\<rparr>"]
  obtain msg where m: "frozen_modules ([PurePath [''modules'', ''a.py'']] @ PurePath [''modules'', ''sub'', ''c.py''] #
                      [PurePath [''modules'', ''b.py'']]) \<lparr>cwd = Dir [], log = []\<rparr> =
       (Some (ValueError msg),
        \<lparr>cwd = Dir [], log =
          [Print ''INCLUDING modules/a.py as a module.'',
           Print ''Including a as a module.'',
           Freeze_as_mpy ''modules'' ''a.py'',
           Print ''INCLUDING modules/sub/c.py as a module.'']\<rparr>)"
    by (auto simp: str_def stem_def name_def parent_def)
  have "fst (frozen_modules ([PurePath [''modules'', ''a.py'']] @ PurePath [''modules'', ''sub'', ''c.py''] #
                      [PurePath [''modules'', ''b.py'']]) \<lparr>cwd = Dir [], log = []\<rparr>)
        = Some (ValueError ''too many values to unpack (expected 2)'')"
    by (simp add: frozen_modules_def truth_def body_def emit_def)
  with m have "msg = ''too many values to unpack (expected 2)''" by simp
  with m h1 h2 show ?thesis by simp
qed

text \<open>
  Claim C5 says that a missing \<^verbatim>\<open>./modules\<close> makes the scan raise. It does not:
  \<^verbatim>\<open>glob\<close> on a path that is not a directory yields nothing, so in a working directory
  without \<^verbatim>\<open>modules\<close> the evaluation ends without an exception after the include
  call and the scan.
\<close>
theorem missing_directory_no_error_counterexample:
  "resolve (Dir []) [''modules''] = None
   \<and> run (Dir []) = (None, [Include ''./modules/uasyncio'', Glob (PurePath [''modules'']) ''*.py''])"
  by (simp add: run_def manifest_def frozen_modules_def glob_def is_dir_def Path_def emit_def)

text \<open>
  Claim C5 as amended. When \<^verbatim>\<open>./modules\<close> is missing or is not a directory, the scan
  raises nothing and yields no candidate; the evaluation makes the include call, scans,
  registers nothing and ends without an exception.
\<close>

theorem missing_directory_no_candidates:
  assumes "\<not> is_dir root (Path ''./modules'')"
  shows "glob root (Path ''./modules'') ''*.py'' = []
       \<and> run root = (None, [Include ''./modules/uasyncio'', Glob (Path ''./modules'') ''*.py''])"
  using assms by (simp add: run_events glob_def)

theorem missing_directory_no_candidates_witness:
  "\<not> is_dir (Dir [(''modules'', File ''not a directory'')]) (Path ''./modules'')
   \<and> glob (Dir [(''modules'', File ''not a directory'')]) (Path ''./modules'') ''*.py'' = []
   \<and> run (Dir [(''modules'', File ''not a directory'')])
       = (None, [Include ''./modules/uasyncio'', Glob (PurePath [''modules'']) ''*.py''])"
proof -
  have h: "\<not> is_dir (Dir [(''modules'', File ''not a directory'')]) (Path ''./modules'')"
    by (simp add: is_dir_def Path_def)
  from missing_directory_no_candidates [OF h] h show ?thesis by (simp add: Path_def)
qed

text \<open>
  Claim C6 says that every registered candidate is a file. The scan does not look at
  the kind of an entry: a directory named \<^verbatim>\<open>pkg.py\<close> inside \<^verbatim>\<open>./modules\<close> is registered.
\<close>
theorem directory_registered_counterexample:
  "resolve (Dir [(''modules'', Dir [(''pkg.py'', Dir [])])]) [''modules'', ''pkg.py''] = Some (Dir [])
   \<and> freeze_calls (snd (run (Dir [(''modules'', Dir [(''pkg.py'', Dir [])])]))) = [(''modules'', ''pkg.py'')]"
  by (simp add: run_def manifest_def frozen_modules_def glob_def is_dir_def scandir_def
      Path_def emit_def truth_def body_def)

text \<open>
  Claim C6 as amended. When \<^verbatim>\<open>./modules\<close> is a directory, the registration calls are, in
  the order of enumeration, one \<^verbatim>\<open>freeze_as_mpy("modules", n)\<close> for every entry directly
  inside it, file or directory, whose name \<open>n\<close> ends in \<^verbatim>\<open>.py\<close>, and no other: the
  entries of nested directories are not registered.
\<close>

theorem registers_immediate_entries:
  assumes "resolve root [''modules''] = Some (Dir es)"
  shows "freeze_calls (snd (run root)) =
         map (\<lambda>n. (''modules'', n)) (filter (suffix ''.py'') (map fst es))"
proof -
  have "freeze_calls (snd (run root)) =
        map (\<lambda>m. (name (parent m), name m)) (glob root (Path ''./modules'') ''*.py'')"
    by (simp add: run_events freeze_calls_append freeze_calls_registrations)
  also have "\<dots> = map (\<lambda>n. (''modules'', n)) (filter (suffix ''.py'') (map fst es))"
    by (simp add: glob_modules [OF assms] name_def parent_def comp_def)
  finally show ?thesis .
qed

theorem registers_immediate_entries_witness:
  "resolve (Dir [(''modules'', Dir [(''a.py'', File ''x''), (''sub'', Dir [(''c.py'', File ''y'')]),
                                   (''pkg.py'', Dir []), (''d.txt'', File [])])]) [''modules'']
     = Some (Dir [(''a.py'', File ''x''), (''sub'', Dir [(''c.py'', File ''y'')]),
                  (''pkg.py'', Dir []), (''d.txt'', File [])])
   \<and> freeze_calls (snd (run (Dir [(''modules'', Dir [(''a.py'', File ''x''),
         (''sub'', Dir [(''c.py'', File ''y'')]), (''pkg.py'', Dir []), (''d.txt'', File [])])])))
     = [(''modules'', ''a.py''), (''modules'', ''pkg.py'')]"
proof -
  let ?es = "[(''a.py'', File ''x''), (''sub'', Dir [(''c.py'', File ''y'')]),
              (''pkg.py'', Dir []), (''d.txt'', File [])]"
  have h: "resolve (Dir [(''modules'', Dir ?es)]) [''modules''] = Some (Dir ?es)" by simp
  from registers_immediate_entries [OF h] h show ?thesis by (simp add: suffix_Cons)
qed

text \<open>
  Claim C7. With \<^verbatim>\<open>./modules\<close> holding exactly \<^verbatim>\<open>a.py\<close> and \<^verbatim>\<open>b.py\<close>, in either order
  of enumeration, the evaluation ends without an exception; it makes the include call
  first, then scans, then for each entry in the order of enumeration writes the two
  diagnostic lines and calls \<^verbatim>\<open>freeze_as_mpy("modules", name)\<close>.
\<close>
theorem two_files_scenario:
  assumes "resolve root [''modules''] = Some (Dir es)"
  shows "(map fst es = [''a.py'', ''b.py''] \<longrightarrow>
          run root = (None,
            [Include ''./modules/uasyncio'', Glob (Path ''./modules'') ''*.py'',
             Print ''INCLUDING modules/a.py as a module.'', Print ''Including a as a module.'',
             Freeze_as_mpy ''modules'' ''a.py'',
             Print ''INCLUDING modules/b.py as a module.'', Print ''Including b as a module.'',
             Freeze_as_mpy ''modules'' ''b.py'']))
       \<and> (map fst es = [''b.py'', ''a.py''] \<longrightarrow>
          run root = (None,
            [Include ''./modules/uasyncio'', Glob (Path ''./modules'') ''*.py'',
             Print ''INCLUDING modules/b.py as a module.'', Print ''Including b as a module.'',
             Freeze_as_mpy ''modules'' ''b.py'',
             Print ''INCLUDING modules/a.py as a module.'', Print ''Including a as a module.'',
             Freeze_as_mpy ''modules'' ''a.py'']))"
  by (simp add: run_events glob_modules [OF assms] suffix_Cons registration_def
      str_def stem_def name_def parent_def)

theorem two_files_scenario_witness:
  "resolve (Dir [(''modules'', Dir [(''a.py'', File ''import x''), (''b.py'', File [])])]) [''modules'']
     = Some (Dir [(''a.py'', File ''import x''), (''b.py'', File [])])
   \<and> run (Dir [(''modules'', Dir [(''a.py'', File ''import x''), (''b.py'', File [])])]) =
       (None,
        [Include ''./modules/uasyncio'', Glob (PurePath [''modules'']) ''*.py'',
         Print ''INCLUDING modules/a.py as a module.'', Print ''Including a as a module.'',
         Freeze_as_mpy ''modules'' ''a.py'',
         Print ''INCLUDING modules/b.py as a module.'', Print ''Including b as a module.'',
         Freeze_as_mpy ''modules'' ''b.py''])"
proof -
  let ?es = "[(''a.py'', File ''import x''), (''b.py'', File [])]"
  have h: "resolve (Dir [(''modules'', Dir ?es)]) [''modules''] = Some (Dir ?es)" by simp
  from two_files_scenario [OF h] h show ?thesis by (simp add: Path_def)
qed

text \<open>
  Claim C8. An evaluation leaves the file system as it found it; its only file-system
  operation is the one scan of \<^verbatim>\<open>./modules\<close> for \<^verbatim>\<open>*.py\<close>; and what it does depends on
  the file system only through whether \<^verbatim>\<open>./modules\<close> is a directory and the names of
  its entries: two file systems that agree on these give the same outcome and the
  same log, whatever the files contain.
\<close>
theorem manifest_frame:
  "cwd (snd (manifest w)) = cwd w
   \<and> scans (log (snd (manifest w))) = scans (log w) @ [(Path ''./modules'', ''*.py'')]
   \<and> (is_dir r1 (Path ''./modules'') = is_dir r2 (Path ''./modules'')
        \<and> scandir r1 (Path ''./modules'') = scandir r2 (Path ''./modules'')
      \<longrightarrow> run r1 = run r2)"
proof -
  have "cwd (snd (manifest w)) = cwd w"
    by (simp add: manifest_def frozen_modules_loop for_modules_cwd emit_def)
  moreover have "scans (log (snd (manifest w))) = scans (log w) @ [(Path ''./modules'', ''*.py'')]"
  proof -
    have "\<forall>m \<in> set (glob (cwd w) (Path ''./modules'') ''*.py''). length (parts m) = 2"
      using glob_two_parts by fastforce
    then show ?thesis
      by (simp add: manifest_def frozen_modules_loop for_modules_two emit_def
          scans_append scans_registrations)
  qed
  moreover have "run r1 = run r2"
    if "is_dir r1 (Path ''./modules'') = is_dir r2 (Path ''./modules'')"
      and "scandir r1 (Path ''./modules'') = scandir r2 (Path ''./modules'')"
    using glob_listing [OF that, of "''*.py''"] by (simp add: run_events)
  ultimately show ?thesis by simp
qed

theorem manifest_frame_witness:
  "cwd (snd (manifest \<lparr>cwd = Dir [(''modules'', Dir [(''a.py'', File ''x = 1'')])], log = []\<rparr>))
     = Dir [(''modules'', Dir [(''a.py'', File ''x = 1'')])]
   \<and> scans (log (snd (manifest \<lparr>cwd = Dir [(''modules'', Dir [(''a.py'', File ''x = 1'')])], log = []\<rparr>)))
     = [(PurePath [''modules''], ''*.py'')]
   \<and> run (Dir [(''modules'', Dir [(''a.py'', File ''x = 1'')])])
     = run (Dir [(''modules'', Dir [(''a.py'', File ''y = 2'')]), (''other'', File ''z'')])"
proof -
  let ?r1 = "Dir [(''modules'', Dir [(''a.py'', File ''x = 1'')])]"
  let ?r2 = "Dir [(''modules'', Dir [(''a.py'', File ''y = 2'')]), (''other'', File ''z'')]"
  have h: "is_dir ?r1 (Path ''./modules'') = is_dir ?r2 (Path ''./modules'')
           \<and> scandir ?r1 (Path ''./modules'') = scandir ?r2 (Path ''./modules'')"
    by (simp add: is_dir_def scandir_def Path_def)
  from manifest_frame [of "\<lparr>cwd = ?r1, log = []\<rparr>" ?r1 ?r2] h
  show ?thesis by (simp add: Path_def)
qed

text \<open>
  Claim C9. The guard of line 10 is redundant: for every list of candidates and every
  state, the guarded loop and the bare loop give the same outcome and the same state,
  and so do the module body as written and the module body with the guard removed.
\<close>
theorem guard_redundant:
  "frozen_modules ms w = for_modules ms w \<and> manifest w = manifest_unguarded w"
  by (simp add: manifest_def manifest_unguarded_def frozen_modules_loop)

theorem guard_redundant_witness:
  "frozen_modules [] \<lparr>cwd = Dir [], log = []\<rparr> = for_modules [] \<lparr>cwd = Dir [], log = []\<rparr>
   \<and> manifest \<lparr>cwd = Dir [(''modules'', Dir [(''a.py'', File [])])], log = []\<rparr>
     = manifest_unguarded \<lparr>cwd = Dir [(''modules'', Dir [(''a.py'', File [])])], log = []\<rparr>"
  using guard_redundant [of "[]" "\<lparr>cwd = Dir [], log = []\<rparr>"]
    guard_redundant [of "[]" "\<lparr>cwd = Dir [(''modules'', Dir [(''a.py'', File [])])], log = []\<rparr>"]
  by simp

text \<open>
  Claim C10. After the include call and the scan, the log is, candidate by candidate
  in the order of the scan, the line \<^verbatim>\<open>INCLUDING {m} as a module.\<close>, the line
  \<^verbatim>\<open>Including {m.stem} as a module.\<close> and the call of \<^verbatim>\<open>freeze_as_mpy\<close>, and nothing
  else, so standard output receives exactly these two lines per candidate; the stem of a candidate named \<open>s\<close> followed by \<^verbatim>\<open>.py\<close>, with \<open>s\<close> not empty, is
  \<open>s\<close>; and with no candidate nothing is printed.
\<close>
theorem diagnostic_lines:
  "snd (run root) =
     [Include ''./modules/uasyncio'', Glob (Path ''./modules'') ''*.py'']
     @ concat (map (\<lambda>m. [Print (''INCLUDING '' @ str m @ '' as a module.''),
                          Print (''Including '' @ stem m @ '' as a module.''),
                          Freeze_as_mpy (name (parent m)) (name m)])
                (glob root (Path ''./modules'') ''*.py''))
   \<and> printed (snd (run root)) =
       concat (map (\<lambda>m. [''INCLUDING '' @ str m @ '' as a module.'',
                            ''Including '' @ stem m @ '' as a module.''])
                (glob root (Path ''./modules'') ''*.py''))
   \<and> (\<forall>m \<in> set (glob root (Path ''./modules'') ''*.py'').
         \<forall>s. s \<noteq> [] \<and> name m = s @ ''.py'' \<longrightarrow> stem m = s)
   \<and> (glob root (Path ''./modules'') ''*.py'' = [] \<longrightarrow> printed (snd (run root)) = [])"
proof -
  have "registration = (\<lambda>m. [Print (''INCLUDING '' @ str m @ '' as a module.''),
                          Print (''Including '' @ stem m @ '' as a module.''),
                          Freeze_as_mpy (name (parent m)) (name m)])"
    by (rule ext) (simp add: registration_def)
  then have "snd (run root) =
     [Include ''./modules/uasyncio'', Glob (Path ''./modules'') ''*.py'']
     @ concat (map (\<lambda>m. [Print (''INCLUDING '' @ str m @ '' as a module.''),
                          Print (''Including '' @ stem m @ '' as a module.''),
                          Freeze_as_mpy (name (parent m)) (name m)])
                (glob root (Path ''./modules'') ''*.py''))"
    using run_events [of root] by simp
  moreover have "printed (snd (run root)) =
       concat (map (\<lambda>m. [''INCLUDING '' @ str m @ '' as a module.'',
                            ''Including '' @ stem m @ '' as a module.''])
                (glob root (Path ''./modules'') ''*.py''))"
    by (simp add: run_events printed_append printed_registrations)
  moreover have "\<forall>m \<in> set (glob root (Path ''./modules'') ''*.py'').
         \<forall>s. s \<noteq> [] \<and> name m = s @ ''.py'' \<longrightarrow> stem m = s"
    using stem_py by blast
  moreover have "glob root (Path ''./modules'') ''*.py'' = [] \<longrightarrow> printed (snd (run root)) = []"
    by (simp add: run_events)
  ultimately show ?thesis by blast
qed

theorem diagnostic_lines_witness:
  "snd (run (Dir [(''modules'', Dir [(''hub.py'', File ''pass''), (''data.bin'', File [])])])) =
     [Include ''./modules/uasyncio'', Glob (PurePath [''modules'']) ''*.py'',
      Print ''INCLUDING modules/hub.py as a module.'',
      Print ''Including hub as a module.'',
      Freeze_as_mpy ''modules'' ''hub.py'']
   \<and> printed (snd (run (Dir [(''modules'', Dir [(''data.bin'', File [])])]))) = []"
proof -
  have g1: "glob (Dir [(''modules'', Dir [(''hub.py'', File ''pass''), (''data.bin'', File [])])])
              (Path ''./modules'') ''*.py'' = [PurePath [''modules'', ''hub.py'']]"
    by (simp add: glob_def is_dir_def scandir_def Path_def)
  have g2: "glob (Dir [(''modules'', Dir [(''data.bin'', File [])])]) (Path ''./modules'') ''*.py'' = []"
    by (simp add: glob_def is_dir_def scandir_def Path_def)
  from diagnostic_lines [of "Dir [(''modules'', Dir [(''hub.py'', File ''pass''), (''data.bin'', File [])])]"]
    diagnostic_lines [of "Dir [(''modules'', Dir [(''data.bin'', File [])])]"] g1 g2
  show ?thesis by (simp add: Path_def str_def stem_def name_def parent_def)
qed

end
